theory Spec2Isabelle
  imports Main
begin

section \<open>Tasks, configuration and the monitor session\<close>

text \<open>
  A task as returned by \<^verbatim>\<open>dockerClient.listTasks\<close>: the fields the code reads are
  \<^verbatim>\<open>tsk.ID\<close>, \<^verbatim>\<open>tsk.Status.State\<close> and \<^verbatim>\<open>tsk.Status.Err\<close> (absent is \<open>None\<close>).
\<close>

record Task =
  ID :: string
  State :: string
  Err :: "string option"

text \<open>
  The constructor of \<^verbatim>\<open>DockerServices\<close>: \<^verbatim>\<open>options.x || default\<close> takes the default
  when the option is absent or \<open>0\<close>; \<^verbatim>\<open>Math.floor(a / b)\<close> on positive integers is \<open>div\<close>.
\<close>

record config =
  waitDelay :: nat
  monitorFor :: nat
  self_monitorCount :: nat
  maxWaitTimes :: nat

definition or_default :: "nat option \<Rightarrow> nat \<Rightarrow> nat" where
  "or_default v d = (case v of None \<Rightarrow> d | Some n \<Rightarrow> if n = 0 then d else n)"

definition constructor :: "nat option \<Rightarrow> nat option \<Rightarrow> nat option \<Rightarrow> config" where
  "constructor o_waitDelay o_monitorFor o_waitTime =
     (let wd = or_default o_waitDelay 2000;
          mf = or_default o_monitorFor 3000;
          waitTime = or_default o_waitTime (1000 * 60)
      in \<lparr>waitDelay = wd, monitorFor = mf,
          self_monitorCount = mf div wd, maxWaitTimes = waitTime div wd\<rparr>)"

text \<open>
  The second argument of \<^verbatim>\<open>waitUntilRunning(name, monitor = false)\<close>: the callers pass a
  boolean (\<^verbatim>\<open>create\<close>, \<^verbatim>\<open>update\<close>) or an array of task identifiers (\<^verbatim>\<open>adjust\<close>).
  The function only ever reads its truthiness, and every array is truthy.
\<close>

datatype monitor_arg = MBool bool | MIds "string list"

fun truthy_monitor :: "monitor_arg \<Rightarrow> bool" where
  "truthy_monitor (MBool b) = b"
| "truthy_monitor (MIds ids) = True"

text \<open>The calls of \<^verbatim>\<open>self.emit('debug', ...)\<close>, in the order they are made.\<close>

datatype event =
    Starting_monitoring string nat nat nat
  | Check_Task string string string nat nat
  | Task_Running string
  | No_tasks_found string nat nat
  | Done_monitoring string

datatype error =
    ValidationError string
  | TypeError string
  | Error string
  | ClientError string

datatype outcome = Resolved | Rejected error

text \<open>The variables the closure \<^verbatim>\<open>checkTasks\<close> shares across its calls.\<close>

record session =
  times :: nat
  taskRunning :: bool
  monitoring :: bool
  monitorCount :: nat
  log :: "event list"

record wait_result =
  verdict :: outcome
  polls :: nat
  final :: session

section \<open>The poll cycle\<close>

text \<open>
  The body of \<^verbatim>\<open>tasks.forEach\<close>: a \<^verbatim>\<open>throw\<close> inside the callback ends the iteration,
  the events emitted before it stay emitted.
\<close>

record scan_state =
  thrown :: "error option"
  foundTasks :: bool
  running :: bool
  events :: "event list"

definition errMessage :: "Task \<Rightarrow> string" where
  "errMessage tsk = (case Err tsk of None \<Rightarrow> ''null''
                      | Some e \<Rightarrow> if e = [] then ''null'' else e)"

definition failure_message :: "Task \<Rightarrow> string" where
  "failure_message tsk =
     ID tsk @ '' returned status '' @ State tsk @ '' with '' @ errMessage tsk"

fun forEach_task :: "string \<Rightarrow> string list \<Rightarrow> nat \<Rightarrow> nat \<Rightarrow> Task list \<Rightarrow> scan_state \<Rightarrow> scan_state" where
  "forEach_task name existing tms mc [] st = st"
| "forEach_task name existing tms mc (tsk # rest) st =
     (if ID tsk \<notin> set existing then
        (let st1 = st\<lparr>foundTasks := True,
                      events := events st @ [Check_Task name (ID tsk) (State tsk) tms mc]\<rparr>
         in if State tsk = ''failed'' \<or> State tsk = ''rejected''
            then st1\<lparr>thrown := Some (Error (failure_message tsk))\<rparr>
            else if State tsk = ''running''
            then forEach_task name existing tms mc rest
                   (st1\<lparr>running := True,
                        events := events st1 @ (if running st1 then [] else [Task_Running name])\<rparr>)
            else forEach_task name existing tms mc rest st1)
      else forEach_task name existing tms mc rest st)"

text \<open>
  \<^verbatim>\<open>checkTasks\<close>: one call is one poll cycle; \<open>prov k\<close> is what the \<open>k\<close>-th call of
  \<^verbatim>\<open>getTasks\<close> returns, \<open>k\<close> the number of the call being made. The result records the
  number of the last call made.
\<close>

function checkTasks ::
  "config \<Rightarrow> string \<Rightarrow> string list \<Rightarrow> nat \<Rightarrow> (nat \<Rightarrow> Task list) \<Rightarrow> nat \<Rightarrow> session \<Rightarrow> wait_result" where
  "checkTasks cfg name existing n_existing prov k s =
     (let tasks = prov k;
          r = forEach_task name existing (times s) (monitorCount s) tasks
                \<lparr>thrown = None, foundTasks = False, running = taskRunning s, events = log s\<rparr>
      in case thrown r of
           Some e \<Rightarrow>
             \<lparr>verdict = Rejected e, polls = k,
              final = s\<lparr>taskRunning := running r, log := events r\<rparr>\<rparr>
         | None \<Rightarrow>
             if \<not> foundTasks r then
               \<lparr>verdict = Resolved, polls = k,
                final = s\<lparr>taskRunning := running r,
                           log := events r @ [No_tasks_found name n_existing (length tasks)]\<rparr>\<rparr>
             else if times s + 1 > maxWaitTimes cfg \<and> \<not> running r then
               \<lparr>verdict = Rejected (Error ''service timed out''), polls = k,
                final = s\<lparr>times := times s + 1, taskRunning := running r, log := events r\<rparr>\<rparr>
             else if running r \<and> \<not> monitoring s then
               \<lparr>verdict = Resolved, polls = k,
                final = s\<lparr>times := times s + 1, taskRunning := running r,
                           log := events r @ [Done_monitoring name]\<rparr>\<rparr>
             else
               checkTasks cfg name existing n_existing prov (k + 1)
                 \<lparr>times = times s + 1, taskRunning = running r,
                  monitoring = (if running r \<and> monitoring s
                                then \<not> (monitorCount s + 1 \<ge> self_monitorCount cfg)
                                else monitoring s),
                  monitorCount = (if running r \<and> monitoring s
                                  then monitorCount s + 1 else monitorCount s),
                  log = events r\<rparr>)"
  by pat_completeness auto
termination
  by (relation "measure (\<lambda>(cfg, name, existing, n_existing, prov, k, s).
         (if monitoring s then self_monitorCount cfg - monitorCount s + 1 else 0)
         + (maxWaitTimes cfg + 1 - times s))")
     (auto split: if_splits)

text \<open>
  \<^verbatim>\<open>waitUntilRunning\<close>: call \<open>0\<close> of \<^verbatim>\<open>getTasks\<close> gives the tasks whose identifiers,
  unless the task is pending or new, are the ones ignored; the polls are calls \<open>1, 2, ...\<close>.
\<close>

definition existing_of :: "Task list \<Rightarrow> string list" where
  "existing_of existingTasks =
     map ID (filter (\<lambda>tsk. \<not> (State tsk = ''pending'' \<or> State tsk = ''new'')) existingTasks)"

definition waitUntilRunning ::
  "config \<Rightarrow> string \<Rightarrow> monitor_arg \<Rightarrow> (nat \<Rightarrow> Task list) \<Rightarrow> wait_result" where
  "waitUntilRunning cfg name monitor prov =
     (let existingTasks = prov 0;
          existing = existing_of existingTasks
      in checkTasks cfg name existing (length existingTasks) prov 1
           \<lparr>times = 0, taskRunning = False, monitoring = truthy_monitor monitor,
            monitorCount = 0,
            log = [Starting_monitoring name (self_monitorCount cfg) (waitDelay cfg)
                     (maxWaitTimes cfg)]\<rparr>)"

section \<open>Values of the options object\<close>

text \<open>
  The options of \<^verbatim>\<open>adjustSpec\<close> are an untyped object: its own keys with their values,
  looked up by key. A key that is absent reads as \<^verbatim>\<open>undefined\<close>, which is \<open>None\<close> here;
  numbers are the integers.
\<close>

datatype jsval =
    JNull
  | JBool bool
  | JNum int
  | JStr string
  | JArr "jsval list"
  | JObj "(string \<times> jsval) list"

type_synonym jsobj = "(string \<times> jsval) list"

definition get_prop :: "jsobj \<Rightarrow> string \<Rightarrow> jsval option" where
  "get_prop obj k = map_of obj k"

fun truthy :: "jsval option \<Rightarrow> bool" where
  "truthy None = False"
| "truthy (Some JNull) = False"
| "truthy (Some (JBool b)) = b"
| "truthy (Some (JNum n)) = (n \<noteq> 0)"
| "truthy (Some (JStr s)) = (s \<noteq> [])"
| "truthy (Some (JArr xs)) = True"
| "truthy (Some (JObj kvs)) = True"

section \<open>Libraries the merger calls\<close>

datatype joi_type = JoiString | JoiObject | JoiArray | JoiNumber | JoiBoolean

text \<open>
  What \<^verbatim>\<open>adjustSpec\<close> calls from outside \<^verbatim>\<open>index.js\<close> is taken as a parameter:
  \<^verbatim>\<open>utils.arrToObj\<close> and \<^verbatim>\<open>utils.objToArr\<close> (\<^verbatim>\<open>lib/utils\<close>), \<^verbatim>\<open>aug\<close>, the values of
  another type that Joi's convert mode coerces to a type, and the property key that a
  value which is not a string converts to.
\<close>

record lib =
  arrToObj :: "string list \<Rightarrow> jsobj"
  objToArr :: "jsobj \<Rightarrow> string list"
  aug :: "jsval option \<Rightarrow> jsval option \<Rightarrow> jsobj"
  joi_convert :: "joi_type \<Rightarrow> jsval \<Rightarrow> bool"
  toKey :: "jsval \<Rightarrow> string"

text \<open>
  \<^verbatim>\<open>Joi.validate(options, {...})\<close> with the library's defaults: a plain object of schemas
  is an object schema with these keys, every key optional, keys outside it not allowed
  (\<^verbatim>\<open>allowUnknown\<close> is false), the first error returned (\<^verbatim>\<open>abortEarly\<close> is true), the
  schema's keys checked in their order before the unknown ones. \<^verbatim>\<open>Joi.string()\<close> takes a
  string other than the empty one and converts nothing else to a string.
\<close>

definition schema :: "(string \<times> joi_type) list" where
  "schema = [(''image'', JoiString), (''env'', JoiObject), (''envRemove'', JoiArray),
             (''labels'', JoiObject), (''labelRemove'', JoiArray),
             (''replicas'', JoiNumber), (''force'', JoiBoolean)]"

definition base_type :: "joi_type \<Rightarrow> jsval \<Rightarrow> bool" where
  "base_type ty v =
     (case (ty, v) of
        (JoiString, JStr s) \<Rightarrow> s \<noteq> []
      | (JoiObject, JObj kvs) \<Rightarrow> True
      | (JoiArray, JArr xs) \<Rightarrow> True
      | (JoiNumber, JNum n) \<Rightarrow> True
      | (JoiBoolean, JBool b) \<Rightarrow> True
      | _ \<Rightarrow> False)"

definition joi_accepts :: "'a lib_scheme \<Rightarrow> joi_type \<Rightarrow> jsval \<Rightarrow> bool" where
  "joi_accepts l ty v = (base_type ty v \<or> (ty \<noteq> JoiString \<and> joi_convert l ty v))"

definition key_fails :: "'a lib_scheme \<Rightarrow> jsobj \<Rightarrow> string \<times> joi_type \<Rightarrow> bool" where
  "key_fails l options kt =
     (case get_prop options (fst kt) of None \<Rightarrow> False | Some v \<Rightarrow> \<not> joi_accepts l (snd kt) v)"

definition Joi_validate :: "'a lib_scheme \<Rightarrow> jsobj \<Rightarrow> error option" where
  "Joi_validate l options =
     (case find (key_fails l options) schema of
        Some kt \<Rightarrow> Some (ValidationError (fst kt))
      | None \<Rightarrow>
          (case find (\<lambda>k. k \<notin> set (map fst schema)) (map fst options) of
             Some k \<Rightarrow> Some (ValidationError k)
           | None \<Rightarrow> None))"

section \<open>The service specification\<close>

record ContainerSpec =
  Image :: string
  Env :: "string list option"
  Labels :: "jsobj option"

record TaskTemplate =
  ContainerSpec :: ContainerSpec
  ForceUpdate :: "int option"

record Replicated =
  Replicas :: "jsval option"

record Mode =
  Replicated :: "Replicated option"

record ServiceSpec =
  Name :: string
  TaskTemplate :: TaskTemplate
  Mode :: "Mode option"
  version :: "nat option"

section \<open>The spec merger\<close>

definition then_do :: "error + 'a \<Rightarrow> ('a \<Rightarrow> error + 'b) \<Rightarrow> error + 'b" where
  "then_do r f = (case r of Inl e \<Rightarrow> Inl e | Inr x \<Rightarrow> f x)"

definition with_ContainerSpec :: "(ContainerSpec \<Rightarrow> ContainerSpec) \<Rightarrow> ServiceSpec \<Rightarrow> ServiceSpec" where
  "with_ContainerSpec f spec =
     spec\<lparr>TaskTemplate := (TaskTemplate spec)\<lparr>ContainerSpec := f (ContainerSpec (TaskTemplate spec))\<rparr>\<rparr>"

text \<open>
  \<^verbatim>\<open>if (options.image) spec.TaskTemplate.ContainerSpec.Image = options.image\<close>. Past the
  validation a truthy \<^verbatim>\<open>options.image\<close> is a string.
\<close>

definition set_image :: "jsobj \<Rightarrow> ServiceSpec \<Rightarrow> ServiceSpec" where
  "set_image options spec =
     (if truthy (get_prop options ''image'') then
        (case get_prop options ''image'' of
           Some (JStr s) \<Rightarrow> with_ContainerSpec (\<lambda>cs. cs\<lparr>Image := s\<rparr>) spec
         | _ \<Rightarrow> spec)
      else spec)"

text \<open>
  \<^verbatim>\<open>xs.forEach((e) => delete merged[e])\<close>: a value without a \<^verbatim>\<open>forEach\<close> method (Joi
  may have let a string through as an array) raises a TypeError.
\<close>

definition property_key :: "'a lib_scheme \<Rightarrow> jsval \<Rightarrow> string" where
  "property_key l v = (case v of JStr s \<Rightarrow> s | _ \<Rightarrow> toKey l v)"

definition delete_key :: "'a lib_scheme \<Rightarrow> jsobj \<Rightarrow> jsval \<Rightarrow> jsobj" where
  "delete_key l merged e = filter (\<lambda>kv. fst kv \<noteq> property_key l e) merged"

definition remove_keys :: "'a lib_scheme \<Rightarrow> jsval option \<Rightarrow> jsobj \<Rightarrow> error + jsobj" where
  "remove_keys l removals merged =
     (if truthy removals then
        (case removals of
           Some (JArr es) \<Rightarrow> Inr (foldl (delete_key l) merged es)
         | _ \<Rightarrow> Inl (TypeError ''forEach is not a function''))
      else Inr merged)"

definition merge_env :: "'a lib_scheme \<Rightarrow> jsobj \<Rightarrow> ServiceSpec \<Rightarrow> error + ServiceSpec" where
  "merge_env l options spec =
     (if truthy (get_prop options ''env'') \<or> truthy (get_prop options ''envRemove'') then
        (let env = arrToObj l (case Env (ContainerSpec (TaskTemplate spec)) of
                                 None \<Rightarrow> [] | Some xs \<Rightarrow> xs);
             merged = aug l (Some (JObj env)) (get_prop options ''env'')
         in then_do (remove_keys l (get_prop options ''envRemove'') merged)
              (\<lambda>m. Inr (with_ContainerSpec (\<lambda>cs. cs\<lparr>Env := Some (objToArr l m)\<rparr>) spec)))
      else Inr spec)"

definition merge_labels :: "'a lib_scheme \<Rightarrow> jsobj \<Rightarrow> ServiceSpec \<Rightarrow> error + ServiceSpec" where
  "merge_labels l options spec =
     (if truthy (get_prop options ''labels'') \<or> truthy (get_prop options ''labelRemove'') then
        (let merged = aug l (map_option JObj (Labels (ContainerSpec (TaskTemplate spec))))
                        (if truthy (get_prop options ''labels'')
                         then get_prop options ''labels'' else Some (JObj []))
         in then_do (remove_keys l (get_prop options ''labelRemove'') merged)
              (\<lambda>m. Inr (with_ContainerSpec (\<lambda>cs. cs\<lparr>Labels := Some m\<rparr>) spec)))
      else Inr spec)"

definition set_replicas :: "jsobj \<Rightarrow> ServiceSpec \<Rightarrow> ServiceSpec" where
  "set_replicas options spec =
     (if truthy (get_prop options ''replicas'') then
        (let mode = (case Mode spec of None \<Rightarrow> \<lparr>Replicated = None\<rparr> | Some m \<Rightarrow> m);
             replicated = (case Replicated mode of None \<Rightarrow> \<lparr>Replicas = None\<rparr> | Some r \<Rightarrow> r)
         in spec\<lparr>Mode := Some (mode\<lparr>Replicated :=
                     Some (replicated\<lparr>Replicas := get_prop options ''replicas''\<rparr>)\<rparr>)\<rparr>)
      else spec)"

text \<open>
  \<^verbatim>\<open>updateCount + 1\<close> on a number of JavaScript: the counter is an integer held as a
  double. Below \<open>2^53\<close> in magnitude the sum is exact; from there on the doubles are the
  even integers (the multiples of four from \<open>2^54\<close> on), and the sum is rounded to the
  nearest of them, a tie going to the one with the even significand.
\<close>

definition js_plus_one :: "int \<Rightarrow> int" where
  "js_plus_one n =
     (if - (2 ^ 53) \<le> n \<and> n < 2 ^ 53 then n + 1
      else if \<bar>n\<bar> < 2 ^ 54 then (if even (n div 2) then n else n + 2)
      else n)"

definition apply_force :: "jsobj \<Rightarrow> ServiceSpec \<Rightarrow> ServiceSpec" where
  "apply_force options spec =
     (if truthy (get_prop options ''force'') then
        (let updateCount = (case ForceUpdate (TaskTemplate spec) of
                              None \<Rightarrow> 0 | Some n \<Rightarrow> if n = 0 then 0 else n);
             spec1 = spec\<lparr>TaskTemplate := (TaskTemplate spec)\<lparr>ForceUpdate := Some (js_plus_one updateCount)\<rparr>\<rparr>
         in with_ContainerSpec (\<lambda>cs. cs\<lparr>Image := takeWhile (\<lambda>c. c \<noteq> CHR ''@'') (Image cs)\<rparr>) spec1)
      else spec)"

definition adjustSpec :: "'a lib_scheme \<Rightarrow> ServiceSpec \<Rightarrow> jsobj \<Rightarrow> error + ServiceSpec" where
  "adjustSpec l spec options =
     (case Joi_validate l options of
        Some e \<Rightarrow> Inl e
      | None \<Rightarrow>
          then_do (merge_env l options (set_image options spec))
            (\<lambda>spec2. then_do (merge_labels l options spec2)
               (\<lambda>spec3. Inr (apply_force options (set_replicas options spec3)))))"

section \<open>adjust and scale\<close>

text \<open>
  The orchestrator as the methods see it: what the \<open>k\<close>-th \<^verbatim>\<open>listTasks\<close> returns, what
  \<^verbatim>\<open>service.inspect()\<close> returns, and whether \<^verbatim>\<open>service.update\<close> accepts a spec. The
  requests sent are recorded in the order they are sent.
\<close>

record service_info =
  Spec :: ServiceSpec
  Version_Index :: nat

record client =
  tasksAt :: "nat \<Rightarrow> Task list"
  inspect_result :: "error + service_info"
  update_result :: "ServiceSpec \<Rightarrow> error option"

datatype request = ListTasks string | InspectService string | UpdateService string ServiceSpec

record adjust_result =
  returned :: "error + ServiceSpec"
  requests :: "request list"
  monitor_run :: "wait_result option"

definition adjust ::
  "'a lib_scheme \<Rightarrow> config \<Rightarrow> client \<Rightarrow> string \<Rightarrow> jsobj \<Rightarrow> adjust_result" where
  "adjust l cfg cl name options =
     (let reads = [ListTasks name, InspectService name]
      in case inspect_result cl of
           Inl e \<Rightarrow> \<lparr>returned = Inl e, requests = reads, monitor_run = None\<rparr>
         | Inr serviceSpec \<Rightarrow>
             (let existing = map ID (tasksAt cl 0);
                  spec = (Spec serviceSpec)\<lparr>version := Some (Version_Index serviceSpec)\<rparr>
              in case adjustSpec l spec options of
                   Inl e \<Rightarrow> \<lparr>returned = Inl e, requests = reads, monitor_run = None\<rparr>
                 | Inr newSpec \<Rightarrow>
                     (case update_result cl newSpec of
                        Some e \<Rightarrow>
                          \<lparr>returned = Inl e, requests = reads @ [UpdateService name newSpec],
                           monitor_run = None\<rparr>
                      | None \<Rightarrow>
                          (let w = waitUntilRunning cfg name (MIds existing)
                                     (\<lambda>k. tasksAt cl (Suc k))
                           in \<lparr>returned = (case verdict w of
                                              Resolved \<Rightarrow> Inr newSpec
                                            | Rejected e \<Rightarrow> Inl e),
                               requests = reads @ [UpdateService name newSpec]
                                          @ replicate (Suc (polls w)) (ListTasks name),
                               monitor_run = Some w\<rparr>))))"

definition scale :: "'a lib_scheme \<Rightarrow> config \<Rightarrow> client \<Rightarrow> string \<Rightarrow> int \<Rightarrow> adjust_result" where
  "scale l cfg cl name replicas = adjust l cfg cl name [(''replicas'', JNum replicas)]"

section \<open>Predicates on a poll cycle\<close>

text \<open>
  A new task is one whose identifier is not among the ignored ones. A cycle is benign
  when it shows a new task and no new task that failed or was rejected.
\<close>

definition new_failed :: "string list \<Rightarrow> Task \<Rightarrow> bool" where
  "new_failed existing tsk =
     (ID tsk \<notin> set existing \<and> (State tsk = ''failed'' \<or> State tsk = ''rejected''))"

definition new_running :: "string list \<Rightarrow> Task \<Rightarrow> bool" where
  "new_running existing tsk = (ID tsk \<notin> set existing \<and> State tsk = ''running'')"

definition benign :: "string list \<Rightarrow> Task list \<Rightarrow> bool" where
  "benign existing tasks =
     ((\<exists>tsk \<in> set tasks. ID tsk \<notin> set existing)
      \<and> (\<forall>tsk \<in> set tasks. \<not> new_failed existing tsk))"

section \<open>Concrete inputs\<close>

definition default_config :: config where
  "default_config = constructor None None None"

definition task :: "string \<Rightarrow> string \<Rightarrow> Task" where
  "task i st = \<lparr>ID = i, State = st, Err = None\<rparr>"

definition start_session :: "config \<Rightarrow> string \<Rightarrow> bool \<Rightarrow> session" where
  "start_session cfg name mon =
     \<lparr>times = 0, taskRunning = False, monitoring = mon, monitorCount = 0,
      log = [Starting_monitoring name (self_monitorCount cfg) (waitDelay cfg)
               (maxWaitTimes cfg)]\<rparr>"

definition timeout_config :: config where
  "timeout_config = constructor None None (Some 6000)"

definition pending_provider :: "nat \<Rightarrow> Task list" where
  "pending_provider k = (if k = 0 then [task ''t1'' ''running'']
                         else [task ''t1'' ''running'', task ''t2'' ''pending''])"

definition running_then_failed :: "nat \<Rightarrow> Task list" where
  "running_then_failed k = (if k = 0 then [] else if k = 1 then [task ''t2'' ''running'']
                            else [task ''t2'' ''failed''])"

definition stale_provider :: "nat \<Rightarrow> Task list" where
  "stale_provider k = (if k = 0 then [task ''t1'' ''pending''] else [task ''t1'' ''failed''])"

definition convergence_provider :: "nat \<Rightarrow> Task list" where
  "convergence_provider k =
     (if k = 0 then [task ''t1'' ''running'']
      else if k = 1 then [task ''t1'' ''running'', task ''t2'' ''pending'']
      else [task ''t1'' ''running'', task ''t2'' ''running''])"

definition rollout_provider :: "nat \<Rightarrow> Task list" where
  "rollout_provider k =
     (if k = 0 then [task ''t1'' ''complete'']
      else if k = 1 then [task ''t2'' ''pending'', task ''t1'' ''shutdown'']
      else [task ''t2'' ''running'', task ''t1'' ''shutdown''])"

text \<open>
  Modelled from the spec: \<^verbatim>\<open>lib/utils\<close> (\<^verbatim>\<open>arrToObj\<close>, \<^verbatim>\<open>objToArr\<close>) and \<^verbatim>\<open>aug\<close> are not
  among the sources. ``Convert the spec's current environment list to a key to value
  mapping, overlay env (overlay wins on key collision) [...] serialize back to a list of
  KEY=VALUE strings.'' This instance of the parameters, with no conversion by Joi, serves
  to run the merger on concrete inputs; what is proved of the merger holds for every
  instance.
\<close>

definition overlay :: "jsobj \<Rightarrow> jsobj \<Rightarrow> jsobj" where
  "overlay base over = over @ filter (\<lambda>kv. fst kv \<notin> set (map fst over)) base"

definition as_object :: "jsval option \<Rightarrow> jsobj" where
  "as_object v = (case v of Some (JObj kvs) \<Rightarrow> kvs | _ \<Rightarrow> [])"

definition example_lib :: lib where
  "example_lib =
     \<lparr>arrToObj = map (\<lambda>s. (takeWhile (\<lambda>c. c \<noteq> CHR ''='') s,
                            JStr (drop 1 (dropWhile (\<lambda>c. c \<noteq> CHR ''='') s)))),
      objToArr = map (\<lambda>kv. fst kv @ ''='' @ (case snd kv of JStr s \<Rightarrow> s | _ \<Rightarrow> [])),
      aug = (\<lambda>a b. overlay (as_object a) (as_object b)),
      joi_convert = (\<lambda>ty v. False),
      toKey = (\<lambda>v. [])\<rparr>"

definition example_spec :: ServiceSpec where
  "example_spec =
     \<lparr>Name = ''svc-x'',
      TaskTemplate = \<lparr>ContainerSpec = \<lparr>Image = ''app:1@sha256:0a1b'',
                                        Env = Some [''A=0'', ''B=2''], Labels = None\<rparr>,
                      ForceUpdate = None\<rparr>,
      Mode = Some \<lparr>Replicated = Some \<lparr>Replicas = Some (JNum 3)\<rparr>\<rparr>,
      version = None\<rparr>"

definition example_client :: client where
  "example_client =
     \<lparr>tasksAt = (\<lambda>k. if k \<le> 1 then [task ''t1'' ''running'']
                      else [task ''t1'' ''running'', task ''t2'' ''running'']),
      inspect_result = Inr \<lparr>Spec = example_spec, Version_Index = 7\<rparr>,
      update_result = (\<lambda>spec. None)\<rparr>"

section \<open>Facts about one poll cycle\<close>

declare checkTasks.simps [simp del]

lemma forEach_task_all_existing:
  "\<forall>tsk \<in> set tasks. ID tsk \<in> set existing \<Longrightarrow>
   forEach_task name existing tms mc tasks st = st"
  by (induction tasks arbitrary: st) auto

lemma forEach_task_failed:
  "find (new_failed existing) tasks = Some t \<Longrightarrow>
   thrown (forEach_task name existing tms mc tasks st) = Some (Error (failure_message t))"
  by (induction tasks arbitrary: st) (auto simp: new_failed_def Let_def)

lemma forEach_task_benign:
  "\<forall>tsk \<in> set tasks. \<not> new_failed existing tsk \<Longrightarrow>
   thrown (forEach_task name existing tms mc tasks st) = thrown st
   \<and> foundTasks (forEach_task name existing tms mc tasks st)
       = (foundTasks st \<or> (\<exists>tsk \<in> set tasks. ID tsk \<notin> set existing))
   \<and> running (forEach_task name existing tms mc tasks st)
       = (running st \<or> (\<exists>tsk \<in> set tasks. new_running existing tsk))"
  by (induction tasks arbitrary: st) (auto simp: new_failed_def new_running_def Let_def)

lemma find_new_failed:
  assumes "tsk \<in> set tasks" "new_failed existing tsk"
  shows "\<exists>t. find (new_failed existing) tasks = Some t \<and> t \<in> set tasks \<and> new_failed existing t"
proof (cases "find (new_failed existing) tasks")
  case None
  with assms show ?thesis by (auto simp: find_None_iff)
next
  case (Some t)
  then show ?thesis by (auto simp: find_Some_iff)
qed

lemma checkTasks_benign:
  assumes "benign existing (prov k)"
  shows "checkTasks cfg name existing n_existing prov k s =
     (let r = forEach_task name existing (times s) (monitorCount s) (prov k)
                \<lparr>thrown = None, foundTasks = False, running = taskRunning s, events = log s\<rparr>;
          run = (taskRunning s \<or> (\<exists>tsk \<in> set (prov k). new_running existing tsk))
      in if times s + 1 > maxWaitTimes cfg \<and> \<not> run then
               \<lparr>verdict = Rejected (Error ''service timed out''), polls = k,
                final = s\<lparr>times := times s + 1, taskRunning := run, log := events r\<rparr>\<rparr>
         else if run \<and> \<not> monitoring s then
               \<lparr>verdict = Resolved, polls = k,
                final = s\<lparr>times := times s + 1, taskRunning := run,
                           log := events r @ [Done_monitoring name]\<rparr>\<rparr>
         else checkTasks cfg name existing n_existing prov (k + 1)
                 \<lparr>times = times s + 1, taskRunning = run,
                  monitoring = (if run \<and> monitoring s
                                then \<not> (monitorCount s + 1 \<ge> self_monitorCount cfg)
                                else monitoring s),
                  monitorCount = (if run \<and> monitoring s
                                  then monitorCount s + 1 else monitorCount s),
                  log = events r\<rparr>)"
proof -
  from assms have b: "\<forall>tsk \<in> set (prov k). \<not> new_failed existing tsk"
    and f: "\<exists>tsk \<in> set (prov k). ID tsk \<notin> set existing"
    by (auto simp: benign_def)
  define r where "r = forEach_task name existing (times s) (monitorCount s) (prov k)
      \<lparr>thrown = None, foundTasks = False, running = taskRunning s, events = log s\<rparr>"
  have sc: "thrown r = None" "foundTasks r"
    "running r = (taskRunning s \<or> (\<exists>tsk \<in> set (prov k). new_running existing tsk))"
    using forEach_task_benign [OF b, of name "times s" "monitorCount s"
      "\<lparr>thrown = None, foundTasks = False, running = taskRunning s, events = log s\<rparr>"] f
    by (simp_all add: r_def)
  show ?thesis
    apply (subst checkTasks.simps)
    unfolding Let_def r_def [symmetric]
    by (simp only: sc option.case simp_thms if_False if_True)
qed



lemma checkTasks_times_out:
  assumes "n = maxWaitTimes cfg - times s" "times s \<le> maxWaitTimes cfg" "\<not> taskRunning s"
    "\<forall>j. k \<le> j \<and> j \<le> k + n \<longrightarrow>
         benign existing (prov j) \<and> (\<forall>tsk \<in> set (prov j). \<not> new_running existing tsk)"
  shows "verdict (checkTasks cfg name existing n_existing prov k s)
           = Rejected (Error ''service timed out'')
         \<and> polls (checkTasks cfg name existing n_existing prov k s) = k + n
         \<and> times (final (checkTasks cfg name existing n_existing prov k s))
           = maxWaitTimes cfg + 1"
  using assms
proof (induction n arbitrary: k s)
  case 0
  then have b: "benign existing (prov k)"
    and nr: "\<forall>tsk \<in> set (prov k). \<not> new_running existing tsk" by auto
  from 0 have t: "times s = maxWaitTimes cfg" by simp
  show ?case
    using nr t "0.prems"(3) by (simp add: checkTasks_benign [where prov = prov and k = k, OF b] Let_def)
next
  case (Suc n)
  then have b: "benign existing (prov k)"
    and nr: "\<forall>tsk \<in> set (prov k). \<not> new_running existing tsk" by auto
  from Suc.prems have t: "times s < maxWaitTimes cfg" by simp
  define r where "r = forEach_task name existing (times s) (monitorCount s) (prov k)
      \<lparr>thrown = None, foundTasks = False, running = taskRunning s, events = log s\<rparr>"
  define s' where "s' = \<lparr>times = times s + 1, taskRunning = False,
      monitoring = monitoring s, monitorCount = monitorCount s, log = events r\<rparr>"
  have step: "checkTasks cfg name existing n_existing prov k s
              = checkTasks cfg name existing n_existing prov (k + 1) s'"
    using nr t Suc.prems(3) by (simp add: checkTasks_benign [where prov = prov and k = k, OF b] Let_def s'_def r_def)
  have "verdict (checkTasks cfg name existing n_existing prov (k + 1) s')
           = Rejected (Error ''service timed out'')
         \<and> polls (checkTasks cfg name existing n_existing prov (k + 1) s') = (k + 1) + n
         \<and> times (final (checkTasks cfg name existing n_existing prov (k + 1) s'))
           = maxWaitTimes cfg + 1"
  proof (rule Suc.IH)
    show "n = maxWaitTimes cfg - times s'" using Suc.prems(1) by (simp add: s'_def)
    show "times s' \<le> maxWaitTimes cfg" using t by (simp add: s'_def)
    show "\<not> taskRunning s'" by (simp add: s'_def)
    show "\<forall>j. k + 1 \<le> j \<and> j \<le> k + 1 + n \<longrightarrow>
         benign existing (prov j) \<and> (\<forall>tsk \<in> set (prov j). \<not> new_running existing tsk)"
    proof (intro allI impI)
      fix j assume "k + 1 \<le> j \<and> j \<le> k + 1 + n"
      then have "k \<le> j \<and> j \<le> k + Suc n" by simp
      with Suc.prems(4) show "benign existing (prov j)
          \<and> (\<forall>tsk \<in> set (prov j). \<not> new_running existing tsk)" by blast
    qed
  qed
  with step show ?case by simp
qed

lemma checkTasks_done:
  assumes "benign existing (prov k)" "taskRunning s" "\<not> monitoring s"
  shows "verdict (checkTasks cfg name existing n_existing prov k s) = Resolved
         \<and> polls (checkTasks cfg name existing n_existing prov k s) = k
         \<and> monitorCount (final (checkTasks cfg name existing n_existing prov k s)) = monitorCount s
         \<and> last (log (final (checkTasks cfg name existing n_existing prov k s))) = Done_monitoring name"
  using assms(2,3) by (simp add: checkTasks_benign [where prov = prov and k = k, OF assms(1)] Let_def)

lemma checkTasks_settles:
  assumes "n = self_monitorCount cfg - (monitorCount s + 1)" "monitoring s"
    "taskRunning s \<or> (\<exists>tsk \<in> set (prov k). new_running existing tsk)"
    "\<forall>j. k \<le> j \<and> j \<le> k + 1 + n \<longrightarrow> benign existing (prov j)"
  shows "verdict (checkTasks cfg name existing n_existing prov k s) = Resolved
         \<and> polls (checkTasks cfg name existing n_existing prov k s) = k + 1 + n
         \<and> monitorCount (final (checkTasks cfg name existing n_existing prov k s))
           = monitorCount s + 1 + n
         \<and> last (log (final (checkTasks cfg name existing n_existing prov k s)))
           = Done_monitoring name"
  using assms
proof (induction n arbitrary: k s)
  case 0
  then have b: "benign existing (prov k)" and b1: "benign existing (prov (k + 1))" by auto
  define r where "r = forEach_task name existing (times s) (monitorCount s) (prov k)
      \<lparr>thrown = None, foundTasks = False, running = taskRunning s, events = log s\<rparr>"
  define s' where "s' = \<lparr>times = times s + 1, taskRunning = True,
      monitoring = False, monitorCount = monitorCount s + 1, log = events r\<rparr>"
  from "0.prems"(1) have "self_monitorCount cfg \<le> monitorCount s + 1" by simp
  then have step: "checkTasks cfg name existing n_existing prov k s
              = checkTasks cfg name existing n_existing prov (k + 1) s'"
    using "0.prems"(2,3) by (simp add: checkTasks_benign [where prov = prov and k = k, OF b] Let_def s'_def r_def)
  have "taskRunning s'" "\<not> monitoring s'" by (simp_all add: s'_def)
  from checkTasks_done [where prov = prov and k = "k + 1", OF b1 this, of cfg name n_existing] step show ?case
    by (simp add: s'_def)
next
  case (Suc n)
  then have b: "benign existing (prov k)" by auto
  define r where "r = forEach_task name existing (times s) (monitorCount s) (prov k)
      \<lparr>thrown = None, foundTasks = False, running = taskRunning s, events = log s\<rparr>"
  define s' where "s' = \<lparr>times = times s + 1, taskRunning = True,
      monitoring = True, monitorCount = monitorCount s + 1, log = events r\<rparr>"
  from Suc.prems(1) have lt: "monitorCount s + 1 < self_monitorCount cfg" by simp
  then have step: "checkTasks cfg name existing n_existing prov k s
              = checkTasks cfg name existing n_existing prov (k + 1) s'"
    using Suc.prems(2,3) by (simp add: checkTasks_benign [where prov = prov and k = k, OF b] Let_def s'_def r_def)
  have "verdict (checkTasks cfg name existing n_existing prov (k + 1) s') = Resolved
         \<and> polls (checkTasks cfg name existing n_existing prov (k + 1) s') = (k + 1) + 1 + n
         \<and> monitorCount (final (checkTasks cfg name existing n_existing prov (k + 1) s'))
           = monitorCount s' + 1 + n
         \<and> last (log (final (checkTasks cfg name existing n_existing prov (k + 1) s')))
           = Done_monitoring name"
  proof (rule Suc.IH)
    show "n = self_monitorCount cfg - (monitorCount s' + 1)"
      using Suc.prems(1) by (simp add: s'_def)
    show "monitoring s'" by (simp add: s'_def)
    show "taskRunning s' \<or> (\<exists>tsk \<in> set (prov (k + 1)). new_running existing tsk)"
      by (simp add: s'_def)
    show "\<forall>j. k + 1 \<le> j \<and> j \<le> k + 1 + 1 + n \<longrightarrow> benign existing (prov j)"
    proof (intro allI impI)
      fix j assume "k + 1 \<le> j \<and> j \<le> k + 1 + 1 + n"
      then have "k \<le> j \<and> j \<le> k + 1 + Suc n" by simp
      with Suc.prems(4) show "benign existing (prov j)" by blast
    qed
  qed
  with step show ?case by (simp add: s'_def)
qed


lemma checkTasks_reaches_threshold:
  assumes "n = self_monitorCount cfg - (monitorCount s + 1)" "monitoring s"
    "taskRunning s \<or> (\<exists>tsk \<in> set (prov k). new_running existing tsk)"
    "\<forall>j. k \<le> j \<and> j \<le> k + n \<longrightarrow> benign existing (prov j)"
  shows "\<exists>s'. checkTasks cfg name existing n_existing prov k s
                = checkTasks cfg name existing n_existing prov (k + 1 + n) s'
              \<and> monitorCount s' = monitorCount s + 1 + n
              \<and> taskRunning s' \<and> \<not> monitoring s'"
  using assms
proof (induction n arbitrary: k s)
  case 0
  then have b: "benign existing (prov k)" by auto
  define r where "r = forEach_task name existing (times s) (monitorCount s) (prov k)
      \<lparr>thrown = None, foundTasks = False, running = taskRunning s, events = log s\<rparr>"
  define s' where "s' = \<lparr>times = times s + 1, taskRunning = True,
      monitoring = False, monitorCount = monitorCount s + 1, log = events r\<rparr>"
  from "0.prems"(1) have "self_monitorCount cfg \<le> monitorCount s + 1" by simp
  then have "checkTasks cfg name existing n_existing prov k s
              = checkTasks cfg name existing n_existing prov (k + 1 + 0) s'"
    using "0.prems"(2,3)
    by (simp add: checkTasks_benign [where prov = prov and k = k, OF b] Let_def s'_def r_def)
  moreover have "monitorCount s' = monitorCount s + 1 + 0" "taskRunning s'" "\<not> monitoring s'"
    by (simp_all add: s'_def)
  ultimately show ?case by blast
next
  case (Suc n)
  then have b: "benign existing (prov k)" by auto
  define r where "r = forEach_task name existing (times s) (monitorCount s) (prov k)
      \<lparr>thrown = None, foundTasks = False, running = taskRunning s, events = log s\<rparr>"
  define s1 where "s1 = \<lparr>times = times s + 1, taskRunning = True,
      monitoring = True, monitorCount = monitorCount s + 1, log = events r\<rparr>"
  from Suc.prems(1) have lt: "monitorCount s + 1 < self_monitorCount cfg" by simp
  then have step: "checkTasks cfg name existing n_existing prov k s
              = checkTasks cfg name existing n_existing prov (k + 1) s1"
    using Suc.prems(2,3)
    by (simp add: checkTasks_benign [where prov = prov and k = k, OF b] Let_def s1_def r_def)
  have "\<exists>s'. checkTasks cfg name existing n_existing prov (k + 1) s1
                = checkTasks cfg name existing n_existing prov ((k + 1) + 1 + n) s'
              \<and> monitorCount s' = monitorCount s1 + 1 + n
              \<and> taskRunning s' \<and> \<not> monitoring s'"
  proof (rule Suc.IH)
    show "n = self_monitorCount cfg - (monitorCount s1 + 1)"
      using Suc.prems(1) by (simp add: s1_def)
    show "monitoring s1" by (simp add: s1_def)
    show "taskRunning s1 \<or> (\<exists>tsk \<in> set (prov (k + 1)). new_running existing tsk)"
      by (simp add: s1_def)
    show "\<forall>j. k + 1 \<le> j \<and> j \<le> k + 1 + n \<longrightarrow> benign existing (prov j)"
    proof (intro allI impI)
      fix j assume "k + 1 \<le> j \<and> j \<le> k + 1 + n"
      then have "k \<le> j \<and> j \<le> k + Suc n" by simp
      with Suc.prems(4) show "benign existing (prov j)" by blast
    qed
  qed
  then obtain s' where "checkTasks cfg name existing n_existing prov (k + 1) s1
                = checkTasks cfg name existing n_existing prov ((k + 1) + 1 + n) s'"
     "monitorCount s' = monitorCount s1 + 1 + n" "taskRunning s'" "\<not> monitoring s'"
    by blast
  with step have "checkTasks cfg name existing n_existing prov k s
                = checkTasks cfg name existing n_existing prov (k + 1 + Suc n) s'
              \<and> monitorCount s' = monitorCount s + 1 + Suc n
              \<and> taskRunning s' \<and> \<not> monitoring s'"
    by (simp add: s1_def)
  then show ?case by blast
qed

lemma waitUntilRunning_start:
  "waitUntilRunning cfg name monitor prov =
     checkTasks cfg name (existing_of (prov 0)) (length (prov 0)) prov 1
       (start_session cfg name (truthy_monitor monitor))"
  by (simp add: waitUntilRunning_def start_session_def Let_def)

lemmas eval_defs = waitUntilRunning_def checkTasks.simps existing_of_def task_def Let_def
  constructor_def or_default_def default_config_def

text \<open>
  C5. A poll cycle in which every task's identifier is among the ignored ones emits the
  ``No tasks found during check.'' observation and returns: the call resolves, the
  elapsed poll counter and the rest of the session are as they were, and this cycle is
  the last call of \<^verbatim>\<open>getTasks\<close>.
\<close>

theorem checkTasks_no_new_tasks:
  assumes "\<forall>tsk \<in> set (prov k). ID tsk \<in> set existing"
  shows "checkTasks cfg name existing n_existing prov k s =
           \<lparr>verdict = Resolved, polls = k,
            final = s\<lparr>log := log s @ [No_tasks_found name n_existing (length (prov k))]\<rparr>\<rparr>"
  using assms by (simp add: checkTasks.simps forEach_task_all_existing)

theorem checkTasks_no_new_tasks_witness:
  "checkTasks default_config ''svc'' [''t1''] 1 (\<lambda>k. [task ''t1'' ''running'']) 3
        (start_session default_config ''svc'' True)
      = \<lparr>verdict = Resolved, polls = 3,
         final = (start_session default_config ''svc'' True)
           \<lparr>log := log (start_session default_config ''svc'' True)
                    @ [No_tasks_found ''svc'' 1 1]\<rparr>\<rparr>"
proof -
  have h: "\<forall>tsk \<in> set ((\<lambda>k. [task ''t1'' ''running'']) (3::nat)). ID tsk \<in> set [''t1'']"
    by (simp add: task_def)
  show ?thesis
    using checkTasks_no_new_tasks [of "\<lambda>k. [task ''t1'' ''running'']" 3 "[''t1'']",
        OF h, of default_config "''svc''" 1 "start_session default_config ''svc'' True"]
    by simp
qed

text \<open>
  C6. A poll cycle that shows a new task in state failed or rejected ends the monitoring
  in that cycle: the call rejects with an error whose message holds the identifier, the
  state and the error detail (``null'' when there is none) of a new task in such a
  state, this cycle is the last call of \<^verbatim>\<open>getTasks\<close>, and the elapsed poll counter is not
  incremented.
\<close>

theorem checkTasks_failed_task:
  assumes "tsk \<in> set (prov k)" "ID tsk \<notin> set existing"
    "State tsk = ''failed'' \<or> State tsk = ''rejected''"
  shows "\<exists>t \<in> set (prov k). ID t \<notin> set existing
           \<and> (State t = ''failed'' \<or> State t = ''rejected'')
           \<and> verdict (checkTasks cfg name existing n_existing prov k s)
               = Rejected (Error (ID t @ '' returned status '' @ State t @ '' with ''
                                   @ (case Err t of None \<Rightarrow> ''null''
                                      | Some e \<Rightarrow> if e = [] then ''null'' else e)))
           \<and> polls (checkTasks cfg name existing n_existing prov k s) = k
           \<and> times (final (checkTasks cfg name existing n_existing prov k s)) = times s"
proof -
  from assms have "new_failed existing tsk" by (simp add: new_failed_def)
  with assms(1) obtain t where t: "find (new_failed existing) (prov k) = Some t"
    "t \<in> set (prov k)" "new_failed existing t"
    using find_new_failed by blast
  have "thrown (forEach_task name existing (times s) (monitorCount s) (prov k)
           \<lparr>thrown = None, foundTasks = False, running = taskRunning s, events = log s\<rparr>)
        = Some (Error (failure_message t))"
    using t(1) by (rule forEach_task_failed)
  then have "verdict (checkTasks cfg name existing n_existing prov k s)
       = Rejected (Error (failure_message t))
     \<and> polls (checkTasks cfg name existing n_existing prov k s) = k
     \<and> times (final (checkTasks cfg name existing n_existing prov k s)) = times s"
    by (simp add: checkTasks.simps Let_def)
  with t(2,3) show ?thesis
    by (auto simp: new_failed_def failure_message_def errMessage_def)
qed

theorem checkTasks_failed_task_witness:
  "(\<lparr>ID = ''t2'', State = ''rejected'', Err = Some ''no suitable node''\<rparr>
      \<in> set ((\<lambda>k. [task ''t1'' ''running'',
                     \<lparr>ID = ''t2'', State = ''rejected'', Err = Some ''no suitable node''\<rparr>])
               (1::nat))
    \<and> ''t2'' \<notin> set [''t1''])
   \<and> verdict (checkTasks default_config ''svc'' [''t1''] 1
        (\<lambda>k. [task ''t1'' ''running'',
              \<lparr>ID = ''t2'', State = ''rejected'', Err = Some ''no suitable node''\<rparr>]) 1
        (start_session default_config ''svc'' True))
      = Rejected (Error ''t2 returned status rejected with no suitable node'')
   \<and> polls (checkTasks default_config ''svc'' [''t1''] 1
        (\<lambda>k. [task ''t1'' ''running'',
              \<lparr>ID = ''t2'', State = ''rejected'', Err = Some ''no suitable node''\<rparr>]) 1
        (start_session default_config ''svc'' True)) = 1"
  using checkTasks_failed_task
    [of "\<lparr>ID = ''t2'', State = ''rejected'', Err = Some ''no suitable node''\<rparr>"
        "\<lambda>k. [task ''t1'' ''running'',
              \<lparr>ID = ''t2'', State = ''rejected'', Err = Some ''no suitable node''\<rparr>]"
        1 "[''t1'']" default_config "''svc''" 1 "start_session default_config ''svc'' True"]
  by (auto simp: task_def)

section \<open>Runs of the monitor\<close>

text \<open>
  C7. With \<^verbatim>\<open>monitor\<close> false and a poll budget of at least one cycle: when cycle 1 shows
  a new task (one whose identifier is not in the baseline set) and no new task that is
  running, failed or rejected, and cycle 2 shows a new task running and none that failed
  or was rejected, the monitoring resolves through the ``Done monitoring tasks.'' exit
  in cycle 2, and call 2 of \<^verbatim>\<open>getTasks\<close> is the last one, whatever later calls would have
  returned. The baseline \<open>{t1}\<close> with \<open>t2\<close> pending in cycle 1 and running in cycle 2 is
  such a run, whatever the settled state of \<open>t1\<close> and the order of the tasks.
\<close>

theorem waitUntilRunning_converges_in_cycle_2:
  assumes "0 < maxWaitTimes cfg"
    "benign (existing_of (prov 0)) (prov 1)"
    "\<forall>tsk \<in> set (prov 1). \<not> new_running (existing_of (prov 0)) tsk"
    "benign (existing_of (prov 0)) (prov 2)"
    "\<exists>tsk \<in> set (prov 2). new_running (existing_of (prov 0)) tsk"
  shows "verdict (waitUntilRunning cfg name (MBool False) prov) = Resolved
         \<and> polls (waitUntilRunning cfg name (MBool False) prov) = 2
         \<and> times (final (waitUntilRunning cfg name (MBool False) prov)) = 2
         \<and> taskRunning (final (waitUntilRunning cfg name (MBool False) prov))
         \<and> last (log (final (waitUntilRunning cfg name (MBool False) prov)))
             = Done_monitoring name"
proof -
  define existing where "existing = existing_of (prov 0)"
  define s0 where "s0 = start_session cfg name False"
  define r where "r = forEach_task name existing (times s0) (monitorCount s0) (prov 1)
      \<lparr>thrown = None, foundTasks = False, running = taskRunning s0, events = log s0\<rparr>"
  define s1 where "s1 = \<lparr>times = 1, taskRunning = False, monitoring = False,
      monitorCount = 0, log = events r\<rparr>"
  note b1 = assms(2) [folded existing_def] and nr1 = assms(3) [folded existing_def]
    and b2 = assms(4) [folded existing_def] and r2 = assms(5) [folded existing_def]
  have step1: "checkTasks cfg name existing (length (prov 0)) prov 1 s0
      = checkTasks cfg name existing (length (prov 0)) prov 2 s1"
    apply (subst checkTasks_benign [where prov = prov and k = 1, OF b1])
    using nr1 assms(1)
    by (simp add: Let_def s0_def s1_def r_def start_session_def numeral_2_eq_2)
  have step2: "verdict (checkTasks cfg name existing (length (prov 0)) prov 2 s1) = Resolved
      \<and> polls (checkTasks cfg name existing (length (prov 0)) prov 2 s1) = 2
      \<and> times (final (checkTasks cfg name existing (length (prov 0)) prov 2 s1)) = 2
      \<and> taskRunning (final (checkTasks cfg name existing (length (prov 0)) prov 2 s1))
      \<and> last (log (final (checkTasks cfg name existing (length (prov 0)) prov 2 s1)))
          = Done_monitoring name"
    apply (subst (1 2 3 4 5) checkTasks_benign [where prov = prov and k = 2, OF b2])
    using r2 by (simp add: Let_def s1_def)
  show ?thesis
    using step1 step2 by (simp add: waitUntilRunning_start existing_def s0_def)
qed

theorem waitUntilRunning_converges_in_cycle_2_witness:
  "verdict (waitUntilRunning default_config ''svc'' (MBool False) convergence_provider)
       = Resolved
   \<and> polls (waitUntilRunning default_config ''svc'' (MBool False) convergence_provider) = 2
   \<and> last (log (final (waitUntilRunning default_config ''svc'' (MBool False)
                          convergence_provider)))
       = Done_monitoring ''svc''
   \<and> verdict (waitUntilRunning default_config ''svc'' (MBool False) rollout_provider)
       = Resolved
   \<and> polls (waitUntilRunning default_config ''svc'' (MBool False) rollout_provider) = 2"
proof -
  have h1: "0 < maxWaitTimes default_config"
    by (simp add: default_config_def constructor_def or_default_def)
  have e: "existing_of (convergence_provider 0) = [''t1'']"
    by (simp add: existing_of_def convergence_provider_def task_def)
  have h2: "benign (existing_of (convergence_provider 0)) (convergence_provider 1)"
    and h3: "\<forall>tsk \<in> set (convergence_provider 1).
               \<not> new_running (existing_of (convergence_provider 0)) tsk"
    and h4: "benign (existing_of (convergence_provider 0)) (convergence_provider 2)"
    and h5: "\<exists>tsk \<in> set (convergence_provider 2).
               new_running (existing_of (convergence_provider 0)) tsk"
    unfolding e
    by (simp_all add: benign_def new_failed_def new_running_def convergence_provider_def task_def)
  have e': "existing_of (rollout_provider 0) = [''t1'']"
    by (simp add: existing_of_def rollout_provider_def task_def)
  have g2: "benign (existing_of (rollout_provider 0)) (rollout_provider 1)"
    and g3: "\<forall>tsk \<in> set (rollout_provider 1).
               \<not> new_running (existing_of (rollout_provider 0)) tsk"
    and g4: "benign (existing_of (rollout_provider 0)) (rollout_provider 2)"
    and g5: "\<exists>tsk \<in> set (rollout_provider 2).
               new_running (existing_of (rollout_provider 0)) tsk"
    unfolding e'
    by (simp_all add: benign_def new_failed_def new_running_def rollout_provider_def task_def)
  from waitUntilRunning_converges_in_cycle_2 [OF h1 h2 h3 h4 h5, of "''svc''"]
    waitUntilRunning_converges_in_cycle_2 [OF h1 g2 g3 g4 g5, of "''svc''"]
  show ?thesis by simp
qed

text \<open>
  C4, as the claim states it, fails: with a poll budget of 3 and \<open>t2\<close> pending in every
  cycle, the monitoring does not end after the 3rd cycle; the timeout is raised in the
  4th.
\<close>

theorem timeout_not_after_third_cycle:
  "maxWaitTimes timeout_config = 3
   \<and> polls (waitUntilRunning timeout_config ''svc'' (MBool True) pending_provider) = 4
   \<and> \<not> (verdict (waitUntilRunning timeout_config ''svc'' (MBool True) pending_provider)
            = Rejected (Error ''service timed out'')
          \<and> polls (waitUntilRunning timeout_config ''svc'' (MBool True) pending_provider) = 3)"
  by (simp add: eval_defs timeout_config_def pending_provider_def)

text \<open>
  C4, amended. With a poll budget of 3, if each of the cycles 1 to 4 shows a new task
  that is pending and no new task that is running, failed or rejected, the monitoring
  rejects with the error ``service timed out'' in the 4th cycle, the first in which the
  elapsed poll counter exceeds 3.
\<close>

theorem waitUntilRunning_times_out_in_cycle_4:
  assumes "maxWaitTimes cfg = 3"
    "\<forall>j \<in> {1..4}. (\<exists>tsk \<in> set (prov j). ID tsk \<notin> set (existing_of (prov 0))
                                    \<and> State tsk = ''pending'')
        \<and> (\<forall>tsk \<in> set (prov j). ID tsk \<notin> set (existing_of (prov 0)) \<longrightarrow>
              State tsk \<noteq> ''running'' \<and> State tsk \<noteq> ''failed'' \<and> State tsk \<noteq> ''rejected'')"
  shows "verdict (waitUntilRunning cfg name monitor prov) = Rejected (Error ''service timed out'')
         \<and> polls (waitUntilRunning cfg name monitor prov) = 4
         \<and> times (final (waitUntilRunning cfg name monitor prov)) = 4"
proof -
  define existing where "existing = existing_of (prov 0)"
  define s0 where "s0 = start_session cfg name (truthy_monitor monitor)"
  have h: "\<forall>j. 1 \<le> j \<and> j \<le> 1 + 3 \<longrightarrow>
         benign existing (prov j) \<and> (\<forall>tsk \<in> set (prov j). \<not> new_running existing tsk)"
  proof (intro allI impI)
    fix j :: nat assume "1 \<le> j \<and> j \<le> 1 + 3"
    then have "j \<in> {1..4}" by simp
    with assms(2) have
      a: "\<exists>tsk \<in> set (prov j). ID tsk \<notin> set existing \<and> State tsk = ''pending''"
      and b: "\<forall>tsk \<in> set (prov j). ID tsk \<notin> set existing \<longrightarrow>
              State tsk \<noteq> ''running'' \<and> State tsk \<noteq> ''failed'' \<and> State tsk \<noteq> ''rejected''"
      unfolding existing_def by blast+
    from a b show "benign existing (prov j) \<and> (\<forall>tsk \<in> set (prov j). \<not> new_running existing tsk)"
      unfolding benign_def new_failed_def new_running_def by blast
  qed
  have "verdict (checkTasks cfg name existing (length (prov 0)) prov 1 s0)
           = Rejected (Error ''service timed out'')
         \<and> polls (checkTasks cfg name existing (length (prov 0)) prov 1 s0) = 1 + 3
         \<and> times (final (checkTasks cfg name existing (length (prov 0)) prov 1 s0))
           = maxWaitTimes cfg + 1"
  proof (rule checkTasks_times_out [where prov = prov])
    show "3 = maxWaitTimes cfg - times s0" by (simp add: assms(1) s0_def start_session_def)
    show "times s0 \<le> maxWaitTimes cfg" by (simp add: s0_def start_session_def)
    show "\<not> taskRunning s0" by (simp add: s0_def start_session_def)
    show "\<forall>j. 1 \<le> j \<and> j \<le> 1 + 3 \<longrightarrow>
         benign existing (prov j) \<and> (\<forall>tsk \<in> set (prov j). \<not> new_running existing tsk)"
      by (rule h)
  qed
  then show ?thesis
    by (simp add: waitUntilRunning_start existing_def s0_def assms(1))
qed

theorem waitUntilRunning_times_out_in_cycle_4_witness:
  "maxWaitTimes timeout_config = 3
   \<and> verdict (waitUntilRunning timeout_config ''svc'' (MBool False) pending_provider)
       = Rejected (Error ''service timed out'')
   \<and> polls (waitUntilRunning timeout_config ''svc'' (MBool False) pending_provider) = 4"
proof -
  have h1: "maxWaitTimes timeout_config = 3"
    by (simp add: timeout_config_def constructor_def or_default_def)
  have ex: "existing_of (pending_provider 0) = [''t1'']"
    by (simp add: existing_of_def pending_provider_def task_def)
  have h2: "\<forall>j \<in> {1..4}.
      (\<exists>tsk \<in> set (pending_provider j). ID tsk \<notin> set (existing_of (pending_provider 0))
                                    \<and> State tsk = ''pending'')
        \<and> (\<forall>tsk \<in> set (pending_provider j).
              ID tsk \<notin> set (existing_of (pending_provider 0)) \<longrightarrow>
              State tsk \<noteq> ''running'' \<and> State tsk \<noteq> ''failed'' \<and> State tsk \<noteq> ''rejected'')"
    unfolding ex by (simp add: pending_provider_def task_def)
  from waitUntilRunning_times_out_in_cycle_4 [OF h1 h2, of "''svc''" "MBool False"] h1
  show ?thesis by simp
qed

text \<open>
  C2, as the claim states it, fails: with \<^verbatim>\<open>monitor\<close> true and a threshold of one extra
  cycle, cycle 1 shows \<open>t2\<close> running and brings the post-convergence counter to the
  threshold, yet \<^verbatim>\<open>getTasks\<close> is called again, and \<open>t2\<close> failing in cycle 2 makes the
  monitoring reject.
\<close>

theorem polls_again_after_threshold:
  "self_monitorCount default_config = 1
   \<and> verdict (waitUntilRunning default_config ''svc'' (MBool True) running_then_failed)
       = Rejected (Error ''t2 returned status failed with null'')
   \<and> polls (waitUntilRunning default_config ''svc'' (MBool True) running_then_failed) = 2
   \<and> monitorCount (final (waitUntilRunning default_config ''svc'' (MBool True)
                             running_then_failed)) = 1"
  by (simp add: eval_defs running_then_failed_def failure_message_def errMessage_def)

text \<open>
  C2, amended. When extended monitoring is still on and a new task has been seen running
  (before or in cycle \<open>k\<close>), and every cycle from \<open>k\<close> on shows a new task and no new task
  that failed or was rejected: the post-convergence counter is incremented once in each
  cycle from \<open>k\<close> on until it reaches the threshold (at least once), that cycle clears the
  monitoring flag and \<^verbatim>\<open>getTasks\<close> is called once more; the monitoring resolves through
  the ``Done monitoring tasks.'' exit in the cycle after the one in which the counter
  reached the threshold, and that cycle is the last call.
\<close>

theorem checkTasks_extended_monitoring:
  assumes "monitoring s"
    "taskRunning s \<or> (\<exists>tsk \<in> set (prov k). new_running existing tsk)"
    "\<forall>j. k \<le> j \<and> j \<le> k + 1 + (self_monitorCount cfg - (monitorCount s + 1)) \<longrightarrow>
         benign existing (prov j)"
  shows "(\<exists>s'. checkTasks cfg name existing n_existing prov k s
                = checkTasks cfg name existing n_existing prov
                    (k + (self_monitorCount cfg - (monitorCount s + 1)) + 1) s'
              \<and> monitorCount s' = max (self_monitorCount cfg) (monitorCount s + 1)
              \<and> \<not> monitoring s')
         \<and> verdict (checkTasks cfg name existing n_existing prov k s) = Resolved
         \<and> polls (checkTasks cfg name existing n_existing prov k s)
           = k + (self_monitorCount cfg - (monitorCount s + 1)) + 1
         \<and> monitorCount (final (checkTasks cfg name existing n_existing prov k s))
           = max (self_monitorCount cfg) (monitorCount s + 1)
         \<and> last (log (final (checkTasks cfg name existing n_existing prov k s)))
           = Done_monitoring name"
proof -
  have a: "\<forall>j. k \<le> j \<and> j \<le> k + (self_monitorCount cfg - (monitorCount s + 1)) \<longrightarrow>
         benign existing (prov j)"
    using assms(3) by simp
  from checkTasks_reaches_threshold [where prov = prov and k = k, OF refl assms(1,2) a,
      of name n_existing]
  obtain s' where s': "checkTasks cfg name existing n_existing prov k s
                = checkTasks cfg name existing n_existing prov
                    (k + 1 + (self_monitorCount cfg - (monitorCount s + 1))) s'"
     "monitorCount s' = monitorCount s + 1 + (self_monitorCount cfg - (monitorCount s + 1))"
     "\<not> monitoring s'"
    by blast
  have e: "k + 1 + (self_monitorCount cfg - (monitorCount s + 1))
      = k + (self_monitorCount cfg - (monitorCount s + 1)) + 1" by simp
  have m: "monitorCount s + 1 + (self_monitorCount cfg - (monitorCount s + 1))
      = max (self_monitorCount cfg) (monitorCount s + 1)" by simp
  from s' have "\<exists>s'. checkTasks cfg name existing n_existing prov k s
                = checkTasks cfg name existing n_existing prov
                    (k + (self_monitorCount cfg - (monitorCount s + 1)) + 1) s'
              \<and> monitorCount s' = max (self_monitorCount cfg) (monitorCount s + 1)
              \<and> \<not> monitoring s'"
    unfolding e m by blast
  moreover note checkTasks_settles [where prov = prov and k = k, OF refl assms, of name n_existing]
  ultimately show ?thesis unfolding e m by blast
qed

theorem checkTasks_extended_monitoring_witness:
  "monitoring (start_session default_config ''svc'' True)
   \<and> (\<exists>tsk \<in> set ((\<lambda>k. [task ''t2'' ''running'']) (1::nat)). new_running [] tsk)
   \<and> verdict (checkTasks default_config ''svc'' [] 0 (\<lambda>k. [task ''t2'' ''running'']) 1
        (start_session default_config ''svc'' True)) = Resolved
   \<and> polls (checkTasks default_config ''svc'' [] 0 (\<lambda>k. [task ''t2'' ''running'']) 1
        (start_session default_config ''svc'' True)) = 2
   \<and> monitorCount (final (checkTasks default_config ''svc'' [] 0
        (\<lambda>k. [task ''t2'' ''running'']) 1 (start_session default_config ''svc'' True))) = 1"
proof -
  have h1: "monitoring (start_session default_config ''svc'' True)"
    by (simp add: start_session_def)
  have h2: "taskRunning (start_session default_config ''svc'' True)
      \<or> (\<exists>tsk \<in> set ((\<lambda>k. [task ''t2'' ''running'']) (1::nat)). new_running [] tsk)"
    by (simp add: new_running_def task_def)
  have h3: "\<forall>j. 1 \<le> j \<and> j \<le> 1 + 1 + (self_monitorCount default_config
                 - (monitorCount (start_session default_config ''svc'' True) + 1)) \<longrightarrow>
         benign [] ((\<lambda>k. [task ''t2'' ''running'']) j)"
    by (simp add: benign_def new_failed_def task_def)
  have c: "self_monitorCount default_config = 1"
    "monitorCount (start_session default_config ''svc'' True) = 0"
    by (simp_all add: default_config_def constructor_def or_default_def start_session_def)
  from checkTasks_extended_monitoring [where prov = "\<lambda>k. [task ''t2'' ''running'']"
      and k = 1, OF h1 h2 h3, of "''svc''" 0] h1 h2 c
  show ?thesis by (simp add: start_session_def)
qed

text \<open>
  C1 at a failing input: \<^verbatim>\<open>adjust\<close> hands over the identifiers \<open>[t1]\<close> it fetched; the
  monitor fetches the tasks again, finds \<open>t1\<close> pending and ignores no task; \<open>t1\<close> failing
  in cycle 1 makes the monitoring reject, although \<open>t1\<close> is in the set handed over. The
  identifiers handed over never reach the set of ignored ones: only their truthiness
  is read.
\<close>

theorem waitUntilRunning_recomputes_baseline:
  "existing_of (stale_provider 0) = []
   \<and> verdict (waitUntilRunning default_config ''svc'' (MIds [''t1'']) stale_provider)
       = Rejected (Error ''t1 returned status failed with null'')
   \<and> polls (waitUntilRunning default_config ''svc'' (MIds [''t1'']) stale_provider) = 1
   \<and> waitUntilRunning default_config ''svc'' (MIds [''t1'']) stale_provider
       = waitUntilRunning default_config ''svc'' (MBool True) stale_provider"
proof -
  have ex: "existing_of (stale_provider 0) = []"
    by (simp add: existing_of_def stale_provider_def task_def)
  have p1: "stale_provider (Suc 0) = [task ''t1'' ''failed'']"
    by (simp add: stale_provider_def)
  show ?thesis
    by (simp add: waitUntilRunning_def ex p1 Let_def checkTasks.simps task_def
        failure_message_def errMessage_def)
qed

section \<open>Facts about the merger\<close>

lemma Joi_validate_empty: "Joi_validate l [] = None"
  by (simp add: Joi_validate_def key_fails_def get_prop_def schema_def)

lemma Joi_validate_replicas: "Joi_validate l [(''replicas'', JNum n)] = None"
  by (simp add: Joi_validate_def key_fails_def get_prop_def schema_def joi_accepts_def base_type_def)

lemma Joi_validate_force: "Joi_validate l [(''force'', JBool b)] = None"
  by (simp add: Joi_validate_def key_fails_def get_prop_def schema_def joi_accepts_def base_type_def)

lemma force_once:
  "adjustSpec l spec [(''force'', JBool True)] =
     Inr (spec\<lparr>TaskTemplate := (TaskTemplate spec)
            \<lparr>ContainerSpec := (ContainerSpec (TaskTemplate spec))
               \<lparr>Image := takeWhile (\<lambda>c. c \<noteq> CHR ''@'') (Image (ContainerSpec (TaskTemplate spec)))\<rparr>,
             ForceUpdate := Some (js_plus_one
                 (case ForceUpdate (TaskTemplate spec) of None \<Rightarrow> 0 | Some n \<Rightarrow> n))\<rparr>\<rparr>)"
  by (simp add: adjustSpec_def Joi_validate_force then_do_def merge_env_def merge_labels_def
      set_image_def set_replicas_def apply_force_def get_prop_def with_ContainerSpec_def Let_def
      split: option.split)


lemma distinct_schema: "distinct (map fst schema)"
  by (simp add: schema_def)

lemma Joi_validate_None_iff:
  "Joi_validate l options = None \<longleftrightarrow>
     (\<forall>kt \<in> set schema. \<not> key_fails l options kt)
     \<and> (\<forall>k \<in> set (map fst options). k \<in> set (map fst schema))"
proof -
  have A: "find (key_fails l options) schema = None
      \<longleftrightarrow> (\<forall>kt \<in> set schema. \<not> key_fails l options kt)"
    by (auto simp: find_None_iff)
  have B: "find (\<lambda>k. k \<notin> set (map fst schema)) (map fst options) = None
      \<longleftrightarrow> (\<forall>k \<in> set (map fst options). k \<in> set (map fst schema))"
    by (auto simp: find_None_iff)
  have "Joi_validate l options = None \<longleftrightarrow>
      find (key_fails l options) schema = None
      \<and> find (\<lambda>k. k \<notin> set (map fst schema)) (map fst options) = None"
    by (simp add: Joi_validate_def split: option.split)
  then show ?thesis unfolding A B .
qed

lemma Joi_validate_Some:
  "Joi_validate l options = Some e \<Longrightarrow> \<exists>k. e = ValidationError k"
  by (auto simp: Joi_validate_def split: option.splits)

lemma schema_rejects_iff:
  "(\<exists>k v. get_prop options k = Some v
          \<and> (case map_of schema k of None \<Rightarrow> True | Some ty \<Rightarrow> \<not> joi_accepts l ty v))
   \<longleftrightarrow> Joi_validate l options \<noteq> None"
proof
  assume "\<exists>k v. get_prop options k = Some v
          \<and> (case map_of schema k of None \<Rightarrow> True | Some ty \<Rightarrow> \<not> joi_accepts l ty v)"
  then obtain k v where kv: "get_prop options k = Some v"
    and c: "case map_of schema k of None \<Rightarrow> True | Some ty \<Rightarrow> \<not> joi_accepts l ty v"
    by blast
  show "Joi_validate l options \<noteq> None"
  proof (cases "map_of schema k")
    case None
    then have "k \<notin> set (map fst schema)" by (simp add: map_of_eq_None_iff)
    moreover from kv have "k \<in> set (map fst options)"
      by (auto simp: get_prop_def dest: map_of_SomeD intro: rev_image_eqI)
    ultimately show ?thesis by (auto simp: Joi_validate_None_iff)
  next
    case (Some ty)
    then have "(k, ty) \<in> set schema" by (rule map_of_SomeD)
    moreover from Some c kv have "key_fails l options (k, ty)" by (simp add: key_fails_def)
    ultimately show ?thesis by (auto simp: Joi_validate_None_iff)
  qed
next
  assume "Joi_validate l options \<noteq> None"
  then consider (known) kt where "kt \<in> set schema" "key_fails l options kt"
    | (unknown) k where "k \<in> set (map fst options)" "k \<notin> set (map fst schema)"
    by (auto simp: Joi_validate_None_iff)
  then show "\<exists>k v. get_prop options k = Some v
          \<and> (case map_of schema k of None \<Rightarrow> True | Some ty \<Rightarrow> \<not> joi_accepts l ty v)"
  proof cases
    case known
    then obtain v where v: "get_prop options (fst kt) = Some v" "\<not> joi_accepts l (snd kt) v"
      by (auto simp: key_fails_def split: option.splits)
    from known(1) have "map_of schema (fst kt) = Some (snd kt)"
      using map_of_is_SomeI [OF distinct_schema, of "fst kt" "snd kt"] by simp
    with v show ?thesis by force
  next
    case unknown
    from unknown(1) obtain v where "get_prop options k = Some v"
      unfolding get_prop_def
      by (metis map_of_eq_None_iff not_None_eq set_map)
    moreover from unknown(2) have "map_of schema k = None" by (simp add: map_of_eq_None_iff)
    ultimately show ?thesis by force
  qed
qed

lemma remove_keys_error:
  "remove_keys l removals merged = Inl e \<Longrightarrow> \<exists>m. e = TypeError m"
  by (auto simp: remove_keys_def split: if_splits option.splits jsval.splits)

lemma merge_env_error: "merge_env l options spec = Inl e \<Longrightarrow> \<exists>m. e = TypeError m"
  by (auto simp: merge_env_def then_do_def Let_def split: if_splits sum.splits
      dest: remove_keys_error)

lemma merge_labels_error: "merge_labels l options spec = Inl e \<Longrightarrow> \<exists>m. e = TypeError m"
  by (auto simp: merge_labels_def then_do_def Let_def split: if_splits sum.splits
      dest: remove_keys_error)

lemma adjustSpec_ValidationError_iff:
  "(\<exists>k. adjustSpec l spec options = Inl (ValidationError k)) \<longleftrightarrow> Joi_validate l options \<noteq> None"
proof
  assume "\<exists>k. adjustSpec l spec options = Inl (ValidationError k)"
  then obtain k where k: "adjustSpec l spec options = Inl (ValidationError k)" by blast
  show "Joi_validate l options \<noteq> None"
  proof
    assume n: "Joi_validate l options = None"
    with k show False
      by (auto simp: adjustSpec_def then_do_def split: sum.splits
          dest: merge_env_error merge_labels_error)
  qed
next
  assume "Joi_validate l options \<noteq> None"
  then obtain e where e: "Joi_validate l options = Some e" by blast
  with Joi_validate_Some obtain k where "e = ValidationError k" by blast
  with e show "\<exists>k. adjustSpec l spec options = Inl (ValidationError k)"
    by (simp add: adjustSpec_def)
qed

lemma adjust_validation_failure:
  assumes "inspect_result cl = Inr info"
    "adjustSpec l ((Spec info)\<lparr>version := Some (Version_Index info)\<rparr>) options = Inl e"
  shows "adjust l cfg cl name options =
           \<lparr>returned = Inl e, requests = [ListTasks name, InspectService name],
            monitor_run = None\<rparr>"
  using assms by (simp add: adjust_def Let_def)

lemma js_plus_one_exact: "- (2 ^ 53) \<le> n \<Longrightarrow> n < 2 ^ 53 \<Longrightarrow> js_plus_one n = n + 1"
  by (simp add: js_plus_one_def)

lemma js_plus_one_2_53: "js_plus_one 9007199254740992 = 9007199254740992"
  by (simp add: js_plus_one_def)

lemma js_plus_one_2_53_2: "js_plus_one 9007199254740994 = 9007199254740996"
  by (simp add: js_plus_one_def)

lemma set_image_keeps:
  "Mode (set_image options spec) = Mode spec"
  "ForceUpdate (TaskTemplate (set_image options spec)) = ForceUpdate (TaskTemplate spec)"
  by (simp_all add: set_image_def with_ContainerSpec_def split: option.split jsval.split)

lemma merge_env_keeps:
  assumes "merge_env l options spec = Inr spec'"
  shows "Mode spec' = Mode spec"
    "ForceUpdate (TaskTemplate spec') = ForceUpdate (TaskTemplate spec)"
    "Image (ContainerSpec (TaskTemplate spec')) = Image (ContainerSpec (TaskTemplate spec))"
  using assms
  by (auto simp: merge_env_def then_do_def with_ContainerSpec_def Let_def
      split: if_splits sum.splits)

lemma merge_labels_keeps:
  assumes "merge_labels l options spec = Inr spec'"
  shows "Mode spec' = Mode spec"
    "ForceUpdate (TaskTemplate spec') = ForceUpdate (TaskTemplate spec)"
    "Image (ContainerSpec (TaskTemplate spec')) = Image (ContainerSpec (TaskTemplate spec))"
  using assms
  by (auto simp: merge_labels_def then_do_def with_ContainerSpec_def Let_def
      split: if_splits sum.splits)

lemma apply_force_keeps_Mode: "Mode (apply_force options spec) = Mode spec"
  by (simp add: apply_force_def with_ContainerSpec_def Let_def)

lemma adjustSpec_Inr:
  assumes "adjustSpec l spec options = Inr spec'"
  obtains spec2 spec3 where
    "merge_env l options (set_image options spec) = Inr spec2"
    "merge_labels l options spec2 = Inr spec3"
    "spec' = apply_force options (set_replicas options spec3)"
  using assms
  by (auto simp: adjustSpec_def then_do_def split: option.splits sum.splits)

lemma adjustSpec_keeps_Mode:
  assumes "\<not> truthy (get_prop options ''replicas'')" "adjustSpec l spec options = Inr spec'"
  shows "Mode spec' = Mode spec"
proof -
  from assms(2) obtain spec2 spec3 where
    a: "merge_env l options (set_image options spec) = Inr spec2"
    and b: "merge_labels l options spec2 = Inr spec3"
    and c: "spec' = apply_force options (set_replicas options spec3)"
    by (rule adjustSpec_Inr)
  from assms(1) have "set_replicas options spec3 = spec3" by (simp add: set_replicas_def)
  with c have "Mode spec' = Mode spec3" by (simp add: apply_force_keeps_Mode)
  also have "\<dots> = Mode spec2" using b by (rule merge_labels_keeps)
  also have "\<dots> = Mode (set_image options spec)" using a by (rule merge_env_keeps)
  also have "\<dots> = Mode spec" by (rule set_image_keeps)
  finally show ?thesis .
qed

lemma set_replicas_keeps:
  "ForceUpdate (TaskTemplate (set_replicas options spec)) = ForceUpdate (TaskTemplate spec)"
  "Image (ContainerSpec (TaskTemplate (set_replicas options spec)))
     = Image (ContainerSpec (TaskTemplate spec))"
  by (simp_all add: set_replicas_def Let_def)

lemma no_at_takeWhile: "CHR ''@'' \<notin> set (takeWhile (\<lambda>c. c \<noteq> CHR ''@'') xs)"
  by (auto dest: set_takeWhileD)

lemma takeWhile_no_at: "CHR ''@'' \<notin> set xs \<Longrightarrow> takeWhile (\<lambda>c. c \<noteq> CHR ''@'') xs = xs"
  by (induction xs) auto

lemma adjustSpec_forced:
  assumes "truthy (get_prop options ''force'')" "adjustSpec l spec options = Inr spec'"
  shows "ForceUpdate (TaskTemplate spec')
           = Some (js_plus_one (case ForceUpdate (TaskTemplate spec) of None \<Rightarrow> 0 | Some n \<Rightarrow> n))"
    "Image (ContainerSpec (TaskTemplate spec'))
           = takeWhile (\<lambda>c. c \<noteq> CHR ''@'')
               (Image (ContainerSpec (TaskTemplate (set_image options spec))))"
proof -
  from assms(2) obtain spec2 spec3 where
    a: "merge_env l options (set_image options spec) = Inr spec2"
    and b: "merge_labels l options spec2 = Inr spec3"
    and c: "spec' = apply_force options (set_replicas options spec3)"
    by (rule adjustSpec_Inr)
  have f: "ForceUpdate (TaskTemplate (set_replicas options spec3)) = ForceUpdate (TaskTemplate spec)"
    using merge_labels_keeps(2) [OF b] merge_env_keeps(2) [OF a]
    by (simp add: set_replicas_keeps set_image_keeps)
  have i: "Image (ContainerSpec (TaskTemplate (set_replicas options spec3)))
      = Image (ContainerSpec (TaskTemplate (set_image options spec)))"
    using merge_labels_keeps(3) [OF b] merge_env_keeps(3) [OF a]
    by (simp add: set_replicas_keeps)
  show "ForceUpdate (TaskTemplate spec')
           = Some (js_plus_one (case ForceUpdate (TaskTemplate spec) of None \<Rightarrow> 0 | Some n \<Rightarrow> n))"
    using assms(1) f unfolding c
    by (simp add: apply_force_def with_ContainerSpec_def Let_def split: option.split)
  show "Image (ContainerSpec (TaskTemplate spec'))
           = takeWhile (\<lambda>c. c \<noteq> CHR ''@'')
               (Image (ContainerSpec (TaskTemplate (set_image options spec))))"
    using assms(1) i unfolding c
    by (simp add: apply_force_def with_ContainerSpec_def Let_def)
qed

lemma set_image_Image:
  "Image (ContainerSpec (TaskTemplate (set_image options spec)))
     = (case get_prop options ''image'' of
          Some (JStr s) \<Rightarrow> if s = [] then Image (ContainerSpec (TaskTemplate spec)) else s
        | _ \<Rightarrow> Image (ContainerSpec (TaskTemplate spec)))"
  by (simp add: set_image_def with_ContainerSpec_def split: option.split jsval.split)

section \<open>Runs of the merger\<close>

text \<open>
  C9. For every spec, merging the empty options object succeeds and returns the spec as
  it was given: no field is touched.
\<close>

theorem adjustSpec_empty_options:
  "adjustSpec l spec [] = Inr spec"
  by (simp add: adjustSpec_def Joi_validate_empty then_do_def merge_env_def merge_labels_def
      set_image_def set_replicas_def apply_force_def get_prop_def)

theorem adjustSpec_empty_options_witness:
  "adjustSpec example_lib example_spec [] = Inr example_spec"
  using adjustSpec_empty_options [of example_lib example_spec] .

text \<open>
  C10. For every spec and every options object whose \<^verbatim>\<open>replicas\<close> is \<open>0\<close>, whatever its
  other fields: a merge that returns leaves the mode of the spec, the replica count with
  it, as it was, since \<open>0\<close> is falsy and the branch is skipped. With \<^verbatim>\<open>replicas: 0\<close> alone
  the merge returns the spec unchanged, so \<^verbatim>\<open>scale(name, 0)\<close> submits the inspected spec with
  only the version stamped.
\<close>

theorem adjustSpec_replicas_zero:
  assumes "get_prop options ''replicas'' = Some (JNum 0)"
  shows "(\<forall>spec'. adjustSpec l spec options = Inr spec' \<longrightarrow> Mode spec' = Mode spec)
   \<and> adjustSpec l spec [(''replicas'', JNum 0)] = Inr spec
   \<and> (\<forall>info. inspect_result cl = Inr info \<longrightarrow>
        (\<exists>rest. requests (scale l cfg cl name 0) =
           [ListTasks name, InspectService name,
            UpdateService name ((Spec info)\<lparr>version := Some (Version_Index info)\<rparr>)] @ rest))"
proof -
  from assms have f: "\<not> truthy (get_prop options ''replicas'')" by simp
  have g: "\<forall>spec'. adjustSpec l spec options = Inr spec' \<longrightarrow> Mode spec' = Mode spec"
    using adjustSpec_keeps_Mode [OF f] by blast
  have a: "adjustSpec l spec [(''replicas'', JNum 0)] = Inr spec" for spec
    by (simp add: adjustSpec_def Joi_validate_replicas then_do_def merge_env_def
        merge_labels_def set_image_def set_replicas_def apply_force_def get_prop_def)
  have "\<exists>rest. requests (scale l cfg cl name 0) =
           [ListTasks name, InspectService name,
            UpdateService name ((Spec info)\<lparr>version := Some (Version_Index info)\<rparr>)] @ rest"
    if "inspect_result cl = Inr info" for info
    using that by (simp add: scale_def adjust_def a Let_def split: option.split)
  with a g show ?thesis by blast
qed

theorem adjustSpec_replicas_zero_witness:
  "(\<exists>spec'. adjustSpec example_lib example_spec
               [(''replicas'', JNum 0), (''force'', JBool True)] = Inr spec'
            \<and> ForceUpdate (TaskTemplate spec') = Some 1
            \<and> Mode spec' = Some \<lparr>Replicated = Some \<lparr>Replicas = Some (JNum 3)\<rparr>\<rparr>)
   \<and> adjustSpec example_lib example_spec [(''replicas'', JNum 0)] = Inr example_spec
   \<and> (\<exists>rest. requests (scale example_lib default_config example_client ''svc-x'' 0) =
           [ListTasks ''svc-x'', InspectService ''svc-x'',
            UpdateService ''svc-x'' (example_spec\<lparr>version := Some 7\<rparr>)] @ rest)"
proof -
  have h: "inspect_result example_client = Inr \<lparr>Spec = example_spec, Version_Index = 7\<rparr>"
    by (simp add: example_client_def)
  have z: "get_prop [(''replicas'', JNum 0), (''force'', JBool True)] ''replicas''
      = Some (JNum 0)"
    by (simp add: get_prop_def)
  have v: "Joi_validate example_lib [(''replicas'', JNum 0), (''force'', JBool True)] = None"
    by (simp add: Joi_validate_def key_fails_def get_prop_def schema_def joi_accepts_def
        base_type_def)
  have "\<exists>spec'. adjustSpec example_lib example_spec
               [(''replicas'', JNum 0), (''force'', JBool True)] = Inr spec'
            \<and> ForceUpdate (TaskTemplate spec') = Some 1"
    by (simp add: adjustSpec_def v then_do_def merge_env_def merge_labels_def set_image_def
        set_replicas_def apply_force_def get_prop_def with_ContainerSpec_def Let_def
        example_spec_def js_plus_one_def)
  then obtain spec' where s: "adjustSpec example_lib example_spec
               [(''replicas'', JNum 0), (''force'', JBool True)] = Inr spec'"
    "ForceUpdate (TaskTemplate spec') = Some 1"
    by blast
  note t = adjustSpec_replicas_zero [OF z, of example_lib example_spec example_client
      default_config "''svc-x''"]
  from t s(1) have "Mode spec' = Mode example_spec" by blast
  then have m: "Mode spec' = Some \<lparr>Replicated = Some \<lparr>Replicas = Some (JNum 3)\<rparr>\<rparr>"
    by (simp add: example_spec_def)
  from t h have "adjustSpec example_lib example_spec [(''replicas'', JNum 0)] = Inr example_spec"
    and "\<exists>rest. requests (scale example_lib default_config example_client ''svc-x'' 0) =
           [ListTasks ''svc-x'', InspectService ''svc-x'',
            UpdateService ''svc-x'' (example_spec\<lparr>version := Some 7\<rparr>)] @ rest"
    by simp_all
  with s m show ?thesis by blast
qed

text \<open>
  C8. For a spec whose force-update counter is absent or an integer that two increments
  keep within the exact range of a double (from \<open>-2^53\<close> to \<open>2^53 - 2\<close>), and options
  with \<^verbatim>\<open>force: true\<close>: two applications that return leave the counter at its first value
  (\<open>0\<close> when absent) plus \<open>2\<close>, the image after the first has no \<open>@\<close>, and the second
  leaves that image as it is. With \<^verbatim>\<open>force: true\<close> alone both applications return, and the
  first cuts the image of the spec at its first \<open>@\<close>.
\<close>

theorem adjustSpec_force_twice:
  assumes "case ForceUpdate (TaskTemplate spec) of
             None \<Rightarrow> True | Some n \<Rightarrow> - (2 ^ 53) \<le> n \<and> n + 2 \<le> 2 ^ 53"
    and "get_prop options ''force'' = Some (JBool True)"
  shows "(\<forall>spec1 spec2.
            adjustSpec l spec options = Inr spec1 \<and> adjustSpec l spec1 options = Inr spec2 \<longrightarrow>
              ForceUpdate (TaskTemplate spec2)
                 = Some ((case ForceUpdate (TaskTemplate spec) of None \<Rightarrow> 0 | Some n \<Rightarrow> n) + 2)
              \<and> CHR ''@'' \<notin> set (Image (ContainerSpec (TaskTemplate spec1)))
              \<and> Image (ContainerSpec (TaskTemplate spec2))
                  = Image (ContainerSpec (TaskTemplate spec1)))
   \<and> (\<exists>spec1 spec2.
     adjustSpec l spec [(''force'', JBool True)] = Inr spec1
     \<and> adjustSpec l spec1 [(''force'', JBool True)] = Inr spec2
     \<and> ForceUpdate (TaskTemplate spec2)
         = Some ((case ForceUpdate (TaskTemplate spec) of None \<Rightarrow> 0 | Some n \<Rightarrow> n) + 2)
     \<and> Image (ContainerSpec (TaskTemplate spec1))
         = takeWhile (\<lambda>c. c \<noteq> CHR ''@'') (Image (ContainerSpec (TaskTemplate spec)))
     \<and> Image (ContainerSpec (TaskTemplate spec2)) = Image (ContainerSpec (TaskTemplate spec1)))"
proof -
  define n0 where "n0 = (case ForceUpdate (TaskTemplate spec) of None \<Rightarrow> 0 | Some n \<Rightarrow> n)"
  from assms(1) have b: "- (2 ^ 53) \<le> n0" "n0 + 2 \<le> 2 ^ 53"
    by (simp_all add: n0_def split: option.splits)
  then have two: "js_plus_one (js_plus_one n0) = n0 + 2"
    by (simp add: js_plus_one_def)
  from assms(2) have t: "truthy (get_prop options ''force'')" by simp
  have general: "ForceUpdate (TaskTemplate spec2) = Some (n0 + 2)
              \<and> CHR ''@'' \<notin> set (Image (ContainerSpec (TaskTemplate spec1)))
              \<and> Image (ContainerSpec (TaskTemplate spec2))
                  = Image (ContainerSpec (TaskTemplate spec1))"
    if r1: "adjustSpec l spec options = Inr spec1" and r2: "adjustSpec l spec1 options = Inr spec2"
    for spec1 spec2
  proof -
    note f1 = adjustSpec_forced [OF t r1] and f2 = adjustSpec_forced [OF t r2]
    have c: "ForceUpdate (TaskTemplate spec2) = Some (n0 + 2)"
      using f1(1) f2(1) two by (simp add: n0_def)
    have na: "CHR ''@'' \<notin> set (Image (ContainerSpec (TaskTemplate spec1)))"
      unfolding f1(2) by (rule no_at_takeWhile)
    have "Image (ContainerSpec (TaskTemplate spec2))
        = Image (ContainerSpec (TaskTemplate spec1))"
    proof (cases "\<exists>s. get_prop options ''image'' = Some (JStr s) \<and> s \<noteq> []")
      case True
      then obtain s where s: "get_prop options ''image'' = Some (JStr s)" "s \<noteq> []" by blast
      then have "Image (ContainerSpec (TaskTemplate (set_image options spec))) = s"
        "Image (ContainerSpec (TaskTemplate (set_image options spec1))) = s"
        by (simp_all add: set_image_Image)
      with f1(2) f2(2) show ?thesis by simp
    next
      case False
      then have "Image (ContainerSpec (TaskTemplate (set_image options spec1)))
          = Image (ContainerSpec (TaskTemplate spec1))"
        by (auto simp: set_image_Image split: option.split jsval.split)
      with f2(2) na show ?thesis by (simp add: takeWhile_no_at)
    qed
    with c na show ?thesis by simp
  qed
  have once: "adjustSpec l sp [(''force'', JBool True)] =
     Inr (sp\<lparr>TaskTemplate := (TaskTemplate sp)
            \<lparr>ContainerSpec := (ContainerSpec (TaskTemplate sp))
               \<lparr>Image := takeWhile (\<lambda>c. c \<noteq> CHR ''@'') (Image (ContainerSpec (TaskTemplate sp)))\<rparr>,
             ForceUpdate := Some (js_plus_one
                 (case ForceUpdate (TaskTemplate sp) of None \<Rightarrow> 0 | Some n \<Rightarrow> n))\<rparr>\<rparr>)" for sp
    by (rule force_once)
  have "\<forall>c \<in> set (takeWhile (\<lambda>c. c \<noteq> CHR ''@'') xs). c \<noteq> CHR ''@''" for xs
    by (auto dest: set_takeWhileD)
  then have special: "\<exists>spec1 spec2.
     adjustSpec l spec [(''force'', JBool True)] = Inr spec1
     \<and> adjustSpec l spec1 [(''force'', JBool True)] = Inr spec2
     \<and> ForceUpdate (TaskTemplate spec2) = Some (n0 + 2)
     \<and> Image (ContainerSpec (TaskTemplate spec1))
         = takeWhile (\<lambda>c. c \<noteq> CHR ''@'') (Image (ContainerSpec (TaskTemplate spec)))
     \<and> Image (ContainerSpec (TaskTemplate spec2)) = Image (ContainerSpec (TaskTemplate spec1))"
    using two by (simp add: once n0_def)
  from general special show ?thesis unfolding n0_def by blast
qed

theorem adjustSpec_force_twice_witness:
  "\<exists>spec1 spec2.
     adjustSpec example_lib example_spec [(''force'', JBool True)] = Inr spec1
     \<and> adjustSpec example_lib spec1 [(''force'', JBool True)] = Inr spec2
     \<and> ForceUpdate (TaskTemplate spec2) = Some 2
     \<and> Image (ContainerSpec (TaskTemplate spec1)) = ''app:1''
     \<and> Image (ContainerSpec (TaskTemplate spec2)) = ''app:1''"
proof -
  have b: "case ForceUpdate (TaskTemplate example_spec) of
             None \<Rightarrow> True | Some n \<Rightarrow> - (2 ^ 53) \<le> n \<and> n + 2 \<le> 2 ^ 53"
    by (simp add: example_spec_def)
  have f: "get_prop [(''force'', JBool True)] ''force'' = Some (JBool True)"
    by (simp add: get_prop_def)
  from adjustSpec_force_twice [OF b f, of example_lib]
  obtain spec1 spec2 where
    "adjustSpec example_lib example_spec [(''force'', JBool True)] = Inr spec1"
    "adjustSpec example_lib spec1 [(''force'', JBool True)] = Inr spec2"
    "ForceUpdate (TaskTemplate spec2)
       = Some ((case ForceUpdate (TaskTemplate example_spec) of None \<Rightarrow> 0 | Some n \<Rightarrow> n) + 2)"
    "Image (ContainerSpec (TaskTemplate spec1))
       = takeWhile (\<lambda>c. c \<noteq> CHR ''@'') (Image (ContainerSpec (TaskTemplate example_spec)))"
    "Image (ContainerSpec (TaskTemplate spec2)) = Image (ContainerSpec (TaskTemplate spec1))"
    by blast
  then show ?thesis
    by (intro exI [of _ spec1] exI [of _ spec2]) (simp add: example_spec_def)
qed

text \<open>
  C3, as the claim states it, fails: an options object whose only field is unknown is
  rejected with a validation error, and in \<^verbatim>\<open>adjust\<close> a validation error is raised after
  the task list and the service have been requested.
\<close>

theorem unknown_field_is_rejected:
  "adjustSpec example_lib example_spec [(''foo'', JNum 1)] = Inl (ValidationError ''foo'')
   \<and> returned (adjust example_lib default_config example_client ''svc-x'' [(''image'', JNum 5)])
       = Inl (ValidationError ''image'')
   \<and> requests (adjust example_lib default_config example_client ''svc-x'' [(''image'', JNum 5)])
       = [ListTasks ''svc-x'', InspectService ''svc-x'']"
proof -
  have v1: "Joi_validate example_lib [(''foo'', JNum 1)] = Some (ValidationError ''foo'')"
    by (simp add: Joi_validate_def key_fails_def get_prop_def schema_def)
  have v2: "Joi_validate example_lib [(''image'', JNum 5)] = Some (ValidationError ''image'')"
    by (simp add: Joi_validate_def key_fails_def get_prop_def schema_def joi_accepts_def
        base_type_def)
  show ?thesis
    by (simp add: adjustSpec_def adjust_def v1 v2 example_client_def Let_def)
qed

text \<open>
  C3, amended. For every options object, the merger fails with a validation error exactly
  when the object has a field outside the seven known ones, or a known field whose value
  Joi does not accept for its type (image: a string other than the empty one; env and
  labels: an object; envRemove and labelRemove: an array; replicas: a number; force: a
  boolean; or a value Joi converts to the type). An object with an unknown field is
  rejected. In \<^verbatim>\<open>adjust\<close> the validation error is raised after the two reads (task list,
  service) and before the update is sent or any task is monitored.
\<close>

theorem adjustSpec_validation:
  "((\<exists>k. adjustSpec l spec options = Inl (ValidationError k)) \<longleftrightarrow>
      (\<exists>k v. get_prop options k = Some v
             \<and> (case map_of schema k of
                  None \<Rightarrow> True
                | Some ty \<Rightarrow> \<not> joi_accepts l ty v)))
   \<and> (\<forall>info k. inspect_result cl = Inr info
         \<and> adjustSpec l ((Spec info)\<lparr>version := Some (Version_Index info)\<rparr>) options
             = Inl (ValidationError k) \<longrightarrow>
         adjust l cfg cl name options =
           \<lparr>returned = Inl (ValidationError k),
            requests = [ListTasks name, InspectService name], monitor_run = None\<rparr>)"
  using adjustSpec_ValidationError_iff [of l spec options] schema_rejects_iff [of options l]
    adjust_validation_failure [of cl _ l options _ cfg name]
  by blast

theorem adjustSpec_validation_witness:
  "adjust example_lib default_config example_client ''svc-x'' [(''labels'', JArr [])] =
     \<lparr>returned = Inl (ValidationError ''labels''),
      requests = [ListTasks ''svc-x'', InspectService ''svc-x''], monitor_run = None\<rparr>"
proof -
  have h: "inspect_result example_client = Inr \<lparr>Spec = example_spec, Version_Index = 7\<rparr>"
    by (simp add: example_client_def)
  have v: "Joi_validate example_lib [(''labels'', JArr [])] = Some (ValidationError ''labels'')"
    by (simp add: Joi_validate_def key_fails_def get_prop_def schema_def joi_accepts_def
        base_type_def example_lib_def)
  have a: "adjustSpec example_lib
      ((Spec \<lparr>Spec = example_spec, Version_Index = 7\<rparr>)
         \<lparr>version := Some (Version_Index \<lparr>Spec = example_spec, Version_Index = 7\<rparr>)\<rparr>)
      [(''labels'', JArr [])] = Inl (ValidationError ''labels'')"
    by (simp add: adjustSpec_def v)
  from adjustSpec_validation [of example_lib example_spec "[(''labels'', JArr [])]"
      example_client default_config "''svc-x''"] h a
  show ?thesis by blast
qed

end
